theory Spec2Isabelle
  imports Complex_Main
begin

section \<open>Data model\<close>

text \<open>
  The tool loads a YAML or JSON document into Python objects, changes some of its values
  at random, writes the document back and optionally runs a linter and a test command.

  A Python value is a string, an integer, a float, a boolean, \<open>None\<close>, a list, a
  reference to a dictionary, or an object of some other class (named by its class).
  Dictionaries are mutable objects: they live in a heap and a value refers to one by its
  address, so that two references to the same dictionary see the same updates. A
  dictionary is the list of its items in insertion order, which is the order in which
  \<open>items()\<close> yields them.

  Floats are embedded in the reals: the comparison of two finite floats is the comparison
  of the numbers they denote. The rounding of a float addition is not modelled, and no
  statement below depends on the sum of two floats.
\<close>

type_synonym addr = nat

datatype val =
    VStr string
  | VInt int
  | VFloat real
  | VBool bool
  | VNone
  | VList "val list"
  | VDict addr
  | VObject string

datatype pytype = TStr | TInt | TFloat | TBool | TNoneType | TList | TDict | TClass string

fun type_of :: "val \<Rightarrow> pytype" where
  "type_of (VStr _) = TStr"
| "type_of (VInt _) = TInt"
| "type_of (VFloat _) = TFloat"
| "type_of (VBool _) = TBool"
| "type_of VNone = TNoneType"
| "type_of (VList _) = TList"
| "type_of (VDict _) = TDict"
| "type_of (VObject c) = TClass c"

text \<open>
  \<open>isinstance(value, T)\<close> holds when the class of the value is \<open>T\<close> or a subclass of
  it. Among the classes above the only subclass relation is that of Python itself:
  \<open>bool\<close> is a subclass of \<open>int\<close>, with \<open>True == 1\<close> and \<open>False == 0\<close>.
\<close>

definition isinstance :: "val \<Rightarrow> pytype \<Rightarrow> bool" where
  "isinstance v T = (type_of v = T \<or> (type_of v = TBool \<and> T = TInt))"

fun str_value :: "val \<Rightarrow> string" where
  "str_value (VStr x) = x"
| "str_value _ = []"

fun int_value :: "val \<Rightarrow> int" where
  "int_value (VInt n) = n"
| "int_value (VBool b) = (if b then 1 else 0)"
| "int_value _ = 0"

fun float_value :: "val \<Rightarrow> real" where
  "float_value (VFloat x) = x"
| "float_value _ = 0"

fun bool_value :: "val \<Rightarrow> bool" where
  "bool_value (VBool b) = b"
| "bool_value _ = False"

subsection \<open>Exceptions, diagnostics, external processes\<close>

datatype exn =
    FileNotFoundError
  | IsADirectoryError
  | OSError
  | ValueError
  | JSONDecodeError
  | YAMLError
  | RecursionError
  | AttributeError
  | IndexError
  | KeyError
  | TypeError
  | OtherException string

datatype level = INFO | WARNING | ERROR

text \<open>One constructor for each message the source logs, with the data it prints.\<close>

datatype event =
    Error_parsing_YAML exn
  | Error_parsing_JSON exn
  | Saved_to string
  | Error_writing exn
  | Unsupported_type pytype
  | Executing_test_command string
  | Command_output string
  | Command_error string
  | Command_return_code int
  | Error_executing_test_command exn
  | Yamllint_errors string
  | Yamllint_passed
  | Jsonlint_errors string
  | Jsonlint_passed
  | Lint_unsupported_file_type
  | Linting_tool_not_found exn
  | Error_during_linting exn
  | Linting_failed_aborting
  | Test_command_failed
  | Test_command_passed
  | Mutated_successfully
  | File_not_found exn
  | Value_error exn
  | Unexpected_error exn

text \<open>
  \<open>subprocess.run\<close> is called in two ways: with an argument vector (the linters) and
  with a command line for the shell (the test command).
\<close>

datatype invocation = Exec "string list" | Shell string

record completed =
  returncode :: int
  stdout :: string
  stderr :: string

datatype node = File string | Dir

subsection \<open>The state of a run\<close>

text \<open>
  Everything the program reads or changes is a field of one state:
  the heap of dictionaries, the random source, the log, the file system, and the list of
  the external processes started so far, each with its outcome.

  The random source is the module-level generator of \<open>random\<close>. It is a tape of
  natural numbers and the position of the next one; each library call consumes one
  number and maps it into the range that the library documents for the call.
\<close>

record state =
  heap :: "addr \<Rightarrow> (string \<times> val) list"
  tape :: "nat \<Rightarrow> nat"
  pos :: nat
  log :: "(level \<times> event) list"
  fs :: "string \<Rightarrow> node option"
  procs :: "(invocation \<times> (exn + completed)) list"

definition logging :: "level \<Rightarrow> event \<Rightarrow> state \<Rightarrow> state" where
  "logging l e s = s\<lparr>log := log s @ [(l, e)]\<rparr>"

definition next_raw :: "state \<Rightarrow> nat \<times> state" where
  "next_raw s = (tape s (pos s), s\<lparr>pos := Suc (pos s)\<rparr>)"

text \<open>\<open>random.random()\<close>: a float \<open>k / 2^53\<close> with \<open>0 \<le> k < 2^53\<close>, so in \<open>[0, 1)\<close>.\<close>

definition random_random :: "state \<Rightarrow> real \<times> state" where
  "random_random s = (let (k, s') = next_raw s in (real (k mod 2 ^ 53) / 2 ^ 53, s'))"

text \<open>
  \<open>random.randint(a, b)\<close>: an integer in \<open>[a, b]\<close>. Every call of the source has
  \<open>a \<le> b\<close> (the bounds are constants, or guarded by \<open>len(value) > 2\<close>).
\<close>

definition random_randint :: "int \<Rightarrow> int \<Rightarrow> state \<Rightarrow> int \<times> state" where
  "random_randint a b s = (let (k, s') = next_raw s in (a + int (k mod nat (b - a + 1)), s'))"

text \<open>\<open>random.uniform(a, b)\<close> is \<open>a + (b - a) * random()\<close>.\<close>

definition random_uniform :: "real \<Rightarrow> real \<Rightarrow> state \<Rightarrow> real \<times> state" where
  "random_uniform a b s = (let (u, s') = random_random s in (a + (b - a) * u, s'))"

text \<open>\<open>random.choice(seq)\<close> on a non-empty sequence.\<close>

definition random_choice :: "'a list \<Rightarrow> state \<Rightarrow> 'a \<times> state" where
  "random_choice xs s = (let (k, s') = next_raw s in (xs ! (k mod length xs), s'))"

section \<open>The value mutator\<close>

definition chars :: string where
  "chars = ''abcdefghijklmnopqrstuvwxyz0123456789''"

text \<open>\<open>''.join(random.choice(chars) for _ in range(num_chars))\<close>\<close>

fun random_chars :: "nat \<Rightarrow> state \<Rightarrow> string \<times> state" where
  "random_chars 0 s = ([], s)"
| "random_chars (Suc n) s =
     (let (c, s1) = random_choice chars s; (cs, s2) = random_chars n s1 in (c # cs, s2))"

text \<open>
  \<open>mutate_value\<close>, branch by branch in the order of the source: \<open>str\<close>, \<open>int\<close>,
  \<open>float\<close>, \<open>bool\<close>, anything else. The last branch logs a warning and returns the
  value it was given.
\<close>

definition mutate_value :: "val \<Rightarrow> state \<Rightarrow> val \<times> state" where
  "mutate_value v s =
     (if isinstance v TStr then
        (let value = str_value v; (u, s1) = random_random s in
         if u < 0.5 then
           (let (num_chars, s2) = random_randint 1 5 s1;
                (cs, s3) = random_chars (nat num_chars) s2
            in (VStr (value @ cs), s3))
         else if length value > 2 then
           (let (num_chars_to_remove, s2) = random_randint 1 (int (length value) div 2) s1;
                (start_index, s3) = random_randint 0 (int (length value) - num_chars_to_remove) s2
            in (VStr (take (nat start_index) value
                      @ drop (nat (start_index + num_chars_to_remove)) value), s3))
         else (VStr [], s1))
      else if isinstance v TInt then
        (let (mutation_amount, s1) = random_randint (- 5) 5 s
         in (VInt (int_value v + mutation_amount), s1))
      else if isinstance v TFloat then
        (let (mutation_amount, s1) = random_uniform (- 0.5) 0.5 s
         in (VFloat (float_value v + mutation_amount), s1))
      else if isinstance v TBool then
        (VBool (\<not> bool_value v), s)
      else
        (v, logging WARNING (Unsupported_type (type_of v)) s))"

section \<open>The tree mutator\<close>

text \<open>
  \<open>config[key] = x\<close> for the key of the \<open>i\<close>-th item: the keys of a dictionary are
  distinct, so the assignment rewrites the value of that item and leaves the order and
  the size of the dictionary as they are.
\<close>

definition setitem :: "addr \<Rightarrow> nat \<Rightarrow> val \<Rightarrow> state \<Rightarrow> state" where
  "setitem a i x s =
     s\<lparr>heap := (heap s)(a := (heap s a)[i := (fst (heap s a ! i), x)])\<rparr>"

text \<open>
  \<open>mutate_config d config mutation_rate\<close>: the first argument is the number of nested
  calls of \<open>mutate_config\<close> that the interpreter's recursion limit still allows; a call
  beyond it raises \<open>RecursionError\<close>. A \<open>config\<close> that is not a dictionary has no
  \<open>items\<close> and raises \<open>AttributeError\<close>.

  The loop over \<open>config.items()\<close> is \<open>mutate_items\<close> over the positions of the items.
  The view is live: the value of an item is read from the dictionary when the loop
  reaches it. The function returns \<open>config\<close> itself, the object it was given.
  Both functions return the state they reached, also when an exception ends them.
\<close>

fun mutate_config :: "nat \<Rightarrow> val \<Rightarrow> real \<Rightarrow> state \<Rightarrow> (exn + val) \<times> state"
  and mutate_items :: "nat \<Rightarrow> addr \<Rightarrow> real \<Rightarrow> nat list \<Rightarrow> state \<Rightarrow> exn option \<times> state"
where
  "mutate_config 0 config mutation_rate s = (Inl RecursionError, s)"
| "mutate_config (Suc d) config mutation_rate s =
     (case config of
        VDict a \<Rightarrow>
          (case mutate_items d a mutation_rate [0..<length (heap s a)] s of
             (Some e, s') \<Rightarrow> (Inl e, s')
           | (None, s') \<Rightarrow> (Inr config, s'))
      | _ \<Rightarrow> (Inl AttributeError, s))"
| "mutate_items d a mutation_rate [] s = (None, s)"
| "mutate_items d a mutation_rate (i # is) s =
     (let value = snd (heap s a ! i) in
      if isinstance value TDict then
        (case mutate_config d value mutation_rate s of
           (Inl e, s1) \<Rightarrow> (Some e, s1)
         | (Inr r, s1) \<Rightarrow> mutate_items d a mutation_rate is (setitem a i r s1))
      else
        (let (u, s1) = random_random s in
         if u < mutation_rate then
           (let (x, s2) = mutate_value value s1
            in mutate_items d a mutation_rate is (setitem a i x s2))
         else mutate_items d a mutation_rate is s1))"

section \<open>External collaborators\<close>

text \<open>
  The document parsers and serialisers, the operating system and the external programs
  are not code of this repository. They are parameters of the model, and every statement
  below holds for all of them:
  \<^item> \<open>recursion_limit\<close>: how many nested calls of \<open>mutate_config\<close> the interpreter
    allows at the point where \<open>main\<close> calls it;
  \<^item> \<open>open_refused path writing\<close>: the exception with which the operating system
    refuses to open the path (permissions, a missing directory), if it does;
  \<^item> \<open>yaml_safe_load\<close>, \<open>json_load\<close>: from the text of a file to an exception, or to
    the loaded value and the heap that holds its dictionaries;
  \<^item> \<open>yaml_dump\<close>, \<open>json_dump\<close>: the text written to the file, and the exception
    that ended the serialisation, if one did;
  \<^item> \<open>process\<close>: what \<open>subprocess.run\<close> returns or raises for an invocation, and the
    file system the process leaves behind;
  \<^item> \<open>format_other\<close>: the result of \<open>str.format\<close> on the rest of a template that
    starts with a replacement field other than \<open>{}\<close> (a field with a name, an index,
    a conversion or a format specification), given the argument and the number of
    \<open>{}\<close> fields already replaced.
\<close>

record env =
  recursion_limit :: nat
  open_refused :: "string \<Rightarrow> bool \<Rightarrow> exn option"
  yaml_safe_load :: "string \<Rightarrow> exn + (val \<times> (addr \<Rightarrow> (string \<times> val) list))"
  json_load :: "string \<Rightarrow> exn + (val \<times> (addr \<Rightarrow> (string \<times> val) list))"
  yaml_dump :: "(addr \<Rightarrow> (string \<times> val) list) \<Rightarrow> val \<Rightarrow> string \<times> exn option"
  json_dump :: "(addr \<Rightarrow> (string \<times> val) list) \<Rightarrow> val \<Rightarrow> string \<times> exn option"
  process :: "invocation \<Rightarrow> (string \<Rightarrow> node option)
              \<Rightarrow> (exn + completed) \<times> (string \<Rightarrow> node option)"
  format_other :: "string \<Rightarrow> string \<Rightarrow> nat \<Rightarrow> exn + string"

definition endswith :: "string \<Rightarrow> string \<Rightarrow> bool" where
  "endswith s suffix =
     (length suffix \<le> length s \<and> drop (length s - length suffix) s = suffix)"

definition os_path_exists :: "string \<Rightarrow> state \<Rightarrow> bool" where
  "os_path_exists path s = (fs s path \<noteq> None)"

text \<open>\<open>open(path, "r")\<close> followed by reading the whole file.\<close>

definition open_read :: "env \<Rightarrow> string \<Rightarrow> state \<Rightarrow> exn + string" where
  "open_read E path s =
     (case open_refused E path False of
        Some e \<Rightarrow> Inl e
      | None \<Rightarrow>
          (case fs s path of
             None \<Rightarrow> Inl FileNotFoundError
           | Some Dir \<Rightarrow> Inl IsADirectoryError
           | Some (File text) \<Rightarrow> Inr text))"

text \<open>\<open>open(path, "w")\<close>: the file is created, or emptied when it exists.\<close>

definition open_write :: "env \<Rightarrow> string \<Rightarrow> state \<Rightarrow> exn + state" where
  "open_write E path s =
     (case open_refused E path True of
        Some e \<Rightarrow> Inl e
      | None \<Rightarrow>
          (case fs s path of
             Some Dir \<Rightarrow> Inl IsADirectoryError
           | _ \<Rightarrow> Inr (s\<lparr>fs := (fs s)(path \<mapsto> File [])\<rparr>)))"

definition write_text :: "string \<Rightarrow> string \<Rightarrow> state \<Rightarrow> state" where
  "write_text path text s = s\<lparr>fs := (fs s)(path \<mapsto> File text)\<rparr>"

text \<open>
  \<open>subprocess.run\<close>: every call is recorded with its outcome, also a call that raises
  because the program could not be started.
\<close>

definition subprocess_run :: "env \<Rightarrow> invocation \<Rightarrow> state \<Rightarrow> (exn + completed) \<times> state" where
  "subprocess_run E cmd s =
     (let (r, fs') = process E cmd (fs s)
      in (r, s\<lparr>fs := fs', procs := procs s @ [(cmd, r)]\<rparr>))"

section \<open>Loading and saving\<close>

text \<open>
  The handlers of \<open>load_config\<close> log a YAML or a JSON parse error and raise it again;
  any other exception passes through them.
\<close>

definition load_config_except :: "exn \<Rightarrow> state \<Rightarrow> (exn + val) \<times> state" where
  "load_config_except e s =
     (if e = YAMLError then (Inl e, logging ERROR (Error_parsing_YAML e) s)
      else if e = JSONDecodeError then (Inl e, logging ERROR (Error_parsing_JSON e) s)
      else (Inl e, s))"

definition load_config :: "env \<Rightarrow> string \<Rightarrow> state \<Rightarrow> (exn + val) \<times> state" where
  "load_config E config_file s =
     (if \<not> os_path_exists config_file s then (Inl FileNotFoundError, s)
      else
        (case open_read E config_file s of
           Inl e \<Rightarrow> load_config_except e s
         | Inr text \<Rightarrow>
             if endswith config_file ''.yaml'' \<or> endswith config_file ''.yml'' then
               (case yaml_safe_load E text of
                  Inl e \<Rightarrow> load_config_except e s
                | Inr (config, h) \<Rightarrow> (Inr config, s\<lparr>heap := h\<rparr>))
             else if endswith config_file ''.json'' then
               (case json_load E text of
                  Inl e \<Rightarrow> load_config_except e s
                | Inr (config, h) \<Rightarrow> (Inr config, s\<lparr>heap := h\<rparr>))
             else load_config_except ValueError s))"

definition save_config_except :: "exn \<Rightarrow> state \<Rightarrow> (exn + unit) \<times> state" where
  "save_config_except e s = (Inl e, logging ERROR (Error_writing e) s)"

definition save_config :: "env \<Rightarrow> val \<Rightarrow> string \<Rightarrow> state \<Rightarrow> (exn + unit) \<times> state" where
  "save_config E config output_file s =
     (case open_write E output_file s of
        Inl e \<Rightarrow> save_config_except e s
      | Inr s1 \<Rightarrow>
          if endswith output_file ''.yaml'' \<or> endswith output_file ''.yml'' then
            (let (text, err) = yaml_dump E (heap s1) config;
                 s2 = write_text output_file text s1
             in case err of
                  Some e \<Rightarrow> save_config_except e s2
                | None \<Rightarrow> (Inr (), logging INFO (Saved_to output_file) s2))
          else if endswith output_file ''.json'' then
            (let (text, err) = json_dump E (heap s1) config;
                 s2 = write_text output_file text s1
             in case err of
                  Some e \<Rightarrow> save_config_except e s2
                | None \<Rightarrow> (Inr (), logging INFO (Saved_to output_file) s2))
          else save_config_except ValueError s1)"

section \<open>The test command and the linter\<close>

text \<open>
  \<open>test_command.format(config_file)\<close>, with one positional argument that is a string.
  The template is read from left to right and the first error ends the call:
  \<^item> \<open>{{\<close> and \<open>}}\<close> stand for one brace;
  \<^item> a \<open>}\<close> alone, or a \<open>{\<close> at the end, raises \<open>ValueError\<close>;
  \<^item> \<open>{}\<close> is replaced by the next positional argument; there is only one, so a
    second \<open>{}\<close> raises \<open>IndexError\<close>;
  \<^item> any other replacement field is left to \<open>format_other\<close>.
  \<open>n\<close> counts the \<open>{}\<close> fields replaced so far.
\<close>

definition emit :: "string \<Rightarrow> exn + string \<Rightarrow> exn + string" where
  "emit t r = (case r of Inl e \<Rightarrow> Inl e | Inr u \<Rightarrow> Inr (t @ u))"

fun format_from :: "env \<Rightarrow> string \<Rightarrow> nat \<Rightarrow> string \<Rightarrow> exn + string" where
  "format_from E arg n [] = Inr []"
| "format_from E arg n [c] =
     (if c = CHR ''{'' \<or> c = CHR ''}'' then Inl ValueError else Inr [c])"
| "format_from E arg n (c # c' # cs) =
     (if c = CHR ''}'' then
        (if c' = CHR ''}'' then emit [c] (format_from E arg n cs) else Inl ValueError)
      else if c = CHR ''{'' then
        (if c' = CHR ''{'' then emit [c] (format_from E arg n cs)
         else if c' = CHR ''}'' then
           (if n < 1 then emit arg (format_from E arg (Suc n) cs) else Inl IndexError)
         else format_other E (c # c' # cs) arg n)
      else emit [c] (format_from E arg n (c' # cs)))"

definition str_format :: "env \<Rightarrow> string \<Rightarrow> string \<Rightarrow> exn + string" where
  "str_format E template arg = format_from E arg 0 template"

definition run_test_command :: "env \<Rightarrow> string \<Rightarrow> string \<Rightarrow> state \<Rightarrow> int \<times> state" where
  "run_test_command E config_file test_command s =
     (case str_format E test_command config_file of
        Inl e \<Rightarrow> (- 1, logging ERROR (Error_executing_test_command e) s)
      | Inr command \<Rightarrow>
          (case subprocess_run E (Shell command)
                  (logging INFO (Executing_test_command command) s) of
             (Inl e, s2) \<Rightarrow> (- 1, logging ERROR (Error_executing_test_command e) s2)
           | (Inr result, s2) \<Rightarrow>
               (let s3 = logging INFO (Command_output (stdout result)) s2;
                    s4 = (if stderr result \<noteq> []
                          then logging ERROR (Command_error (stderr result)) s3 else s3);
                    s5 = logging INFO (Command_return_code (returncode result)) s4
                in (returncode result, s5))))"

definition lint_config_except :: "exn \<Rightarrow> state \<Rightarrow> bool \<times> state" where
  "lint_config_except e s =
     (if e = FileNotFoundError then (False, logging ERROR (Linting_tool_not_found e) s)
      else (False, logging ERROR (Error_during_linting e) s))"

definition lint_config :: "env \<Rightarrow> string \<Rightarrow> state \<Rightarrow> bool \<times> state" where
  "lint_config E config_file s =
     (if endswith config_file ''.yaml'' \<or> endswith config_file ''.yml'' then
        (case subprocess_run E (Exec [''yamllint'', config_file]) s of
           (Inl e, s1) \<Rightarrow> lint_config_except e s1
         | (Inr result, s1) \<Rightarrow>
             if returncode result \<noteq> 0
             then (False, logging ERROR (Yamllint_errors (stderr result)) s1)
             else (True, logging INFO Yamllint_passed s1))
      else if endswith config_file ''.json'' then
        (case subprocess_run E (Exec [''jsonlint'', config_file]) s of
           (Inl e, s1) \<Rightarrow> lint_config_except e s1
         | (Inr result, s1) \<Rightarrow>
             if returncode result \<noteq> 0
             then (False, logging ERROR (Jsonlint_errors (stderr result)) s1)
             else (True, logging INFO Jsonlint_passed s1))
      else (True, logging WARNING Lint_unsupported_file_type s))"

section \<open>The session orchestrator\<close>

text \<open>
  The parsed command line. An option that was not given is \<open>None\<close>; the source tests
  \<open>output_file\<close> and \<open>test_command\<close> for truth, so an empty string counts as absent.
  \<open>mutation_rate\<close> is whatever float the command line gave: \<open>setup_argparse\<close>
  declares its type and its default and no range.
\<close>

record args =
  config_file :: string
  mutation_rate :: real
  output_file :: "string option"
  test_command :: "string option"
  lint :: bool

definition truthy :: "string option \<Rightarrow> bool" where
  "truthy x = (case x of None \<Rightarrow> False | Some t \<Rightarrow> t \<noteq> [])"

text \<open>The last stage of \<open>main\<close>: the optional test command and the verdict.\<close>

definition test_stage :: "env \<Rightarrow> args \<Rightarrow> string \<Rightarrow> state \<Rightarrow> int \<times> state" where
  "test_stage E A out s =
     (if truthy (test_command A) then
        (let (return_code, s1) = run_test_command E out (the (test_command A)) s in
         if return_code \<noteq> 0 then (1, logging ERROR Test_command_failed s1)
         else (0, logging INFO Test_command_passed s1))
      else (0, logging INFO Mutated_successfully s))"

text \<open>The body of the \<open>try\<close> statement of \<open>main\<close>: an exception, or the value returned.\<close>

definition main_try :: "env \<Rightarrow> args \<Rightarrow> state \<Rightarrow> (exn + int) \<times> state" where
  "main_try E A s =
     (case load_config E (config_file A) s of
        (Inl e, s1) \<Rightarrow> (Inl e, s1)
      | (Inr config, s1) \<Rightarrow>
          (case mutate_config (recursion_limit E) config (mutation_rate A) s1 of
             (Inl e, s2) \<Rightarrow> (Inl e, s2)
           | (Inr mutated_config, s2) \<Rightarrow>
               (let out = (if truthy (output_file A) then the (output_file A)
                           else config_file A)
                in case save_config E mutated_config out s2 of
                     (Inl e, s3) \<Rightarrow> (Inl e, s3)
                   | (Inr _, s3) \<Rightarrow>
                       if lint A then
                         (let (ok, s4) = lint_config E out s3 in
                          if \<not> ok then (Inr 1, logging ERROR Linting_failed_aborting s4)
                          else (case test_stage E A out s4 of (code, s5) \<Rightarrow> (Inr code, s5)))
                       else (case test_stage E A out s3 of (code, s5) \<Rightarrow> (Inr code, s5)))))"

text \<open>
  \<open>main\<close>: the handlers turn every exception into the return value 1.
  \<open>JSONDecodeError\<close> is a subclass of \<open>ValueError\<close>.
\<close>

definition main :: "env \<Rightarrow> args \<Rightarrow> state \<Rightarrow> int \<times> state" where
  "main E A s =
     (case main_try E A s of
        (Inr code, s') \<Rightarrow> (code, s')
      | (Inl e, s') \<Rightarrow>
          if e = FileNotFoundError then (1, logging ERROR (File_not_found e) s')
          else if e = ValueError \<or> e = JSONDecodeError
          then (1, logging ERROR (Value_error e) s')
          else (1, logging ERROR (Unexpected_error e) s'))"

section \<open>Notions used in the statements\<close>

text \<open>
  The shape of a heap: for every dictionary its keys in order and, for each key, the
  dictionary its value refers to when the value is a dictionary.
\<close>

definition ref_of :: "val \<Rightarrow> addr option" where
  "ref_of v = (case v of VDict b \<Rightarrow> Some b | _ \<Rightarrow> None)"

definition shape :: "(addr \<Rightarrow> (string \<times> val) list) \<Rightarrow> addr \<Rightarrow> (string \<times> addr option) list" where
  "shape h a = map (\<lambda>(k, v). (k, ref_of v)) (h a)"

text \<open>
  \<open>nesting_within d h v\<close>: \<open>v\<close> is a dictionary, and the dictionaries nested in it
  are at most \<open>d\<close> levels deep, \<open>v\<close> itself counted.
\<close>

fun nesting_within :: "nat \<Rightarrow> (addr \<Rightarrow> (string \<times> val) list) \<Rightarrow> val \<Rightarrow> bool" where
  "nesting_within 0 h v = False"
| "nesting_within (Suc d) h v =
     (case v of
        VDict a \<Rightarrow> list_all (\<lambda>(k, x). \<not> isinstance x TDict \<or> nesting_within d h x) (h a)
      | _ \<Rightarrow> False)"

text \<open>
  The tree below a value, as far as \<open>d\<close> levels down: the keys of each dictionary in
  order, and under each key the tree of its value; a value that is not a dictionary is a
  leaf.
\<close>

datatype skeleton = Leaf | Node "(string \<times> skeleton) list"

fun skeleton_of :: "nat \<Rightarrow> (addr \<Rightarrow> (string \<times> val) list) \<Rightarrow> val \<Rightarrow> skeleton" where
  "skeleton_of 0 h v = Leaf"
| "skeleton_of (Suc d) h v =
     (case v of
        VDict a \<Rightarrow> Node (map (\<lambda>(k, x). (k, skeleton_of d h x)) (h a))
      | _ \<Rightarrow> Leaf)"

text \<open>
  What a run adds to the record of external processes and to the log.
\<close>

definition new_procs :: "state \<Rightarrow> state \<Rightarrow> (invocation \<times> (exn + completed)) list" where
  "new_procs s s' = drop (length (procs s)) (procs s')"

definition new_log :: "state \<Rightarrow> state \<Rightarrow> (level \<times> event) list" where
  "new_log s s' = drop (length (log s)) (log s')"

text \<open>
  The linter is the only program that is started from an argument vector, and the test
  command the only one that is started through the shell. A linter invocation failed
  when the program could not be run or returned a code other than 0.
\<close>

definition lint_failed :: "invocation \<times> (exn + completed) \<Rightarrow> bool" where
  "lint_failed p =
     (case p of
        (Exec argv, Inl e) \<Rightarrow> True
      | (Exec argv, Inr result) \<Rightarrow> returncode result \<noteq> 0
      | (Shell command, r) \<Rightarrow> False)"

definition is_test_invocation :: "invocation \<times> (exn + completed) \<Rightarrow> bool" where
  "is_test_invocation p = (case fst p of Shell command \<Rightarrow> True | Exec argv \<Rightarrow> False)"

text \<open>
  The two diagnostics of \<open>run_test_command\<close>: the one of its exception handler, and the
  one that reports the return code of a process that ran.
\<close>

definition invocation_error_logged :: "(level \<times> event) list \<Rightarrow> bool" where
  "invocation_error_logged lg =
     list_ex (\<lambda>(l, ev). case ev of Error_executing_test_command e \<Rightarrow> True | _ \<Rightarrow> False) lg"

definition return_code_logged :: "(level \<times> event) list \<Rightarrow> bool" where
  "return_code_logged lg =
     list_ex (\<lambda>(l, ev). case ev of Command_return_code c \<Rightarrow> True | _ \<Rightarrow> False) lg"


subsection \<open>Example inputs\<close>

text \<open>A state with no dictionaries, no files, and a random source that always yields 7.\<close>

definition state0 :: state where
  "state0 = \<lparr>heap = (\<lambda>a. []), tape = (\<lambda>n. 7), pos = 0, log = [],
             fs = (\<lambda>p. None), procs = []\<rparr>"

text \<open>
  A configuration \<open>{port: 3, db: {debug: None}}\<close>: dictionary 0 is the document,
  dictionary 1 is the value of \<open>db\<close>.
\<close>

definition state1 :: state where
  "state1 = state0\<lparr>heap := (\<lambda>a. [])
               (0 := [(''port'', VInt 3), (''db'', VDict 1)], 1 := [(''debug'', VNone)])\<rparr>"

text \<open>A configuration \<open>{port: 3}\<close>.\<close>

definition state2 :: state where
  "state2 = state0\<lparr>heap := (\<lambda>a. [])(0 := [(''port'', VInt 3)])\<rparr>"

text \<open>The configuration file \<open>app.yaml\<close> exists.\<close>

definition state3 :: state where
  "state3 = state0\<lparr>fs := (\<lambda>p. None)(''app.yaml'' \<mapsto> File ''port: 3'')\<rparr>"

text \<open>
  Collaborators for the examples: the YAML parser yields \<open>{port: 3}\<close>, the linter is not
  installed, and a shell command runs and returns 2.
\<close>

definition env0 :: env where
  "env0 = \<lparr>recursion_limit = 3,
           open_refused = (\<lambda>path writing. None),
           yaml_safe_load = (\<lambda>text. Inr (VDict 0, (\<lambda>a. [])(0 := [(''port'', VInt 3)]))),
           json_load = (\<lambda>text. Inl JSONDecodeError),
           yaml_dump = (\<lambda>h v. (''port: 5'', None)),
           json_dump = (\<lambda>h v. (''{}'', None)),
           process = (\<lambda>cmd files. case cmd of
                        Exec argv \<Rightarrow> (Inl FileNotFoundError, files)
                      | Shell command \<Rightarrow>
                          (Inr \<lparr>returncode = 2, stdout = [], stderr = []\<rparr>, files)),
           format_other = (\<lambda>template arg n. Inl KeyError)\<rparr>"

text \<open>The same, on a system where no process can be started.\<close>

definition env1 :: env where
  "env1 = env0\<lparr>process := (\<lambda>cmd files. (Inl OSError, files))\<rparr>"

definition args0 :: args where
  "args0 = \<lparr>config_file = ''app.yaml'', mutation_rate = 1, output_file = None,
            test_command = None, lint = False\<rparr>"

definition args1 :: args where
  "args1 = args0\<lparr>test_command := Some ''test -f {}'', lint := True\<rparr>"

section \<open>The value mutator: statements\<close>

text \<open>
  C1 (what the code does at a boolean). \<open>mutate_value(True)\<close> takes the integer branch,
  because \<open>isinstance(True, int)\<close> holds and that branch comes before the boolean one:
  with the draw 2 from \<open>randint(-5, 5)\<close> it returns the integer 3 and not \<open>False\<close>, and
  it has consumed one draw of the random source.
\<close>

theorem mutate_value_True_is_int_branch:
  "mutate_value (VBool True) state0 = (VInt 3, state0\<lparr>pos := 1\<rparr>)"
  by (simp add: mutate_value_def isinstance_def random_randint_def next_raw_def state0_def)

text \<open>
  C4. A value whose type is none of string, integer, float and boolean is returned as it
  is, and one warning that names its type is added to the log; nothing else of the state
  changes.
\<close>

theorem unsupported_type_passthrough:
  assumes "type_of v \<notin> {TStr, TInt, TFloat, TBool}"
  shows "mutate_value v s = (v, logging WARNING (Unsupported_type (type_of v)) s)"
  using assms by (simp add: mutate_value_def isinstance_def)

theorem unsupported_type_passthrough_witness:
  "mutate_value (VList [VInt 1]) state0
     = (VList [VInt 1], logging WARNING (Unsupported_type TList) state0)"
  using unsupported_type_passthrough [of "VList [VInt 1]" state0] by simp

section \<open>The tree mutator: lemmas\<close>

subsection \<open>What a step leaves alone\<close>

lemma random_random_unit: "0 \<le> fst (random_random s) \<and> fst (random_random s) < 1"
  by (simp add: random_random_def next_raw_def)

lemma random_random_frame:
  "random_random s = (u, s') \<Longrightarrow> s' = s\<lparr>pos := Suc (pos s)\<rparr>"
  by (auto simp: random_random_def next_raw_def)

lemma random_randint_frame:
  "random_randint a b s = (u, s') \<Longrightarrow> s' = s\<lparr>pos := Suc (pos s)\<rparr>"
  by (auto simp: random_randint_def next_raw_def)

lemma random_chars_frame:
  "random_chars n s = (cs, s') \<Longrightarrow>
   heap s' = heap s \<and> tape s' = tape s \<and> fs s' = fs s \<and> procs s' = procs s \<and> log s' = log s"
proof (induction n arbitrary: s cs s')
  case 0 then show ?case by simp
next
  case (Suc n)
  obtain c s1 where c: "random_choice chars s = (c, s1)" by (cases "random_choice chars s")
  obtain cs' s2 where r: "random_chars n s1 = (cs', s2)" by (cases "random_chars n s1")
  from Suc.prems c r have "s' = s2" by simp
  moreover from c have "s1 = s\<lparr>pos := Suc (pos s)\<rparr>"
    by (auto simp: random_choice_def next_raw_def)
  ultimately show ?case using Suc.IH [OF r] by simp
qed

lemma mutate_value_frame:
  assumes "mutate_value v s = (x, s')"
  shows "heap s' = heap s \<and> tape s' = tape s \<and> fs s' = fs s \<and> procs s' = procs s"
  using assms
  by (auto simp: mutate_value_def random_uniform_def logging_def Let_def
           split: if_splits prod.splits
           dest!: random_random_frame random_randint_frame dest: random_chars_frame)

lemma mutate_value_not_dict:
  assumes "mutate_value v s = (x, s')" "\<not> isinstance v TDict"
  shows "\<not> isinstance x TDict"
  using assms
  by (auto simp: mutate_value_def isinstance_def Let_def split: if_splits prod.splits)

lemma mutate_config_returns_config:
  "mutate_config d v r s = (Inr x, s') \<Longrightarrow> x = v"
  by (cases d; cases v) (auto split: prod.splits option.splits)

lemma setitem_frame [simp]:
  "fs (setitem a i x s) = fs s" "procs (setitem a i x s) = procs s"
  "tape (setitem a i x s) = tape s" "log (setitem a i x s) = log s" "pos (setitem a i x s) = pos s"
  by (simp_all add: setitem_def)

lemma mutate_frame:
  "fs (snd (mutate_config d v r s)) = fs s \<and> procs (snd (mutate_config d v r s)) = procs s
     \<and> tape (snd (mutate_config d v r s)) = tape s"
  "fs (snd (mutate_items d a r is s)) = fs s \<and> procs (snd (mutate_items d a r is s)) = procs s
     \<and> tape (snd (mutate_items d a r is s)) = tape s"
proof (induction d v r s and d a r "is" s rule: mutate_config_mutate_items.induct)
  case (1 config mutation_rate s)
  then show ?case by simp
next
  case (2 d config mutation_rate s)
  then show ?case by (auto split: val.splits prod.splits option.splits)
next
  case (3 d a mutation_rate s)
  then show ?case by simp
next
  case (4 d a mutation_rate i "is" s)
  then show ?case
    by (auto simp: Let_def split: prod.splits sum.splits
        dest!: random_random_frame dest: mutate_value_frame)
qed

subsection \<open>Rate zero\<close>

lemma setitem_same [simp]: "setitem a i (snd (heap s a ! i)) s = s"
  by (simp add: setitem_def)

lemma rate_zero_heap:
  "heap (snd (mutate_config d v 0 s)) = heap s \<and> log (snd (mutate_config d v 0 s)) = log s"
  "heap (snd (mutate_items d a 0 is s)) = heap s \<and> log (snd (mutate_items d a 0 is s)) = log s"
proof (induction d v "0::real" s and d a "0::real" "is" s rule: mutate_config_mutate_items.induct)
  case (1 config s)
  then show ?case by simp
next
  case (2 d config s)
  then show ?case by (auto split: val.splits prod.splits option.splits)
next
  case (3 d a s)
  then show ?case by simp
next
  case (4 d a i "is" s)
  let ?item = "snd (heap s a ! i)"
  show ?case
  proof (cases "isinstance ?item TDict")
    case True
    obtain res s1 where mc: "mutate_config d ?item 0 s = (res, s1)"
      by (cases "mutate_config d ?item 0 s")
    from "4.hyps"(1) [OF refl True] mc have h1: "heap s1 = heap s" "log s1 = log s" by simp_all
    show ?thesis
    proof (cases res)
      case (Inl e)
      with True mc h1 show ?thesis by simp
    next
      case (Inr r)
      with mc have "r = ?item" by (simp add: mutate_config_returns_config)
      with h1 have same: "setitem a i r s1 = s1"
        by (metis setitem_same)
      from "4.hyps"(2) [OF refl True mc [symmetric] Inr] same h1 True mc Inr
      show ?thesis by simp
    qed
  next
    case False
    obtain u s1 where rr: "random_random s = (u, s1)" by (cases "random_random s")
    have "\<not> u < 0" using random_random_unit [of s] rr by simp
    moreover have "heap s1 = heap s" "log s1 = log s"
      using random_random_frame [OF rr] by simp_all
    ultimately show ?thesis
      using "4.hyps"(4) [OF refl False rr [symmetric]] False rr by simp
  qed
qed

subsection \<open>The shape of the heap\<close>

lemma shape_setitem:
  assumes "ref_of x = ref_of (snd (heap s a ! i))"
  shows "shape (heap (setitem a i x s)) = shape (heap s)"
proof (rule ext)
  fix b
  show "shape (heap (setitem a i x s)) b = shape (heap s) b"
  proof (cases "b = a \<and> i < length (heap s a)")
    case True
    then show ?thesis using assms
      by (simp add: shape_def setitem_def map_update split_beta list_update_same_conv)
  next
    case False
    then show ?thesis by (auto simp: shape_def setitem_def list_update_beyond)
  qed
qed

lemma ref_of_not_dict: "\<not> isinstance v TDict \<Longrightarrow> ref_of v = None"
  by (cases v) (simp_all add: ref_of_def isinstance_def)

lemma shape_nth:
  assumes "shape h' = shape h" "i < length (h a)"
  shows "ref_of (snd (h' a ! i)) = ref_of (snd (h a ! i))" "length (h' a) = length (h a)"
proof -
  from assms(1) have eq: "shape h' a = shape h a" by simp
  then show len: "length (h' a) = length (h a)"
    by (metis length_map shape_def)
  from eq have "shape h' a ! i = shape h a ! i" by simp
  with assms(2) len show "ref_of (snd (h' a ! i)) = ref_of (snd (h a ! i))"
    by (simp add: shape_def split_beta)
qed


lemma shape_preserved:
  "shape (heap (snd (mutate_config d v r s))) = shape (heap s)"
  "shape (heap (snd (mutate_items d a r is s))) = shape (heap s)"
proof (induction d v r s and d a r "is" s rule: mutate_config_mutate_items.induct)
  case (1 config mutation_rate s)
  then show ?case by simp
next
  case (2 d config mutation_rate s)
  then show ?case by (auto split: val.splits prod.splits option.splits)
next
  case (3 d a mutation_rate s)
  then show ?case by simp
next
  case (4 d a rate i "is" s)
  let ?item = "snd (heap s a ! i)"
  show ?case
  proof (cases "isinstance ?item TDict")
    case True
    obtain res s1 where mc: "mutate_config d ?item rate s = (res, s1)"
      by (cases "mutate_config d ?item rate s")
    from "4.IH"(1) [OF refl True] mc have h1: "shape (heap s1) = shape (heap s)" by simp
    show ?thesis
    proof (cases res)
      case (Inl e)
      with True mc h1 show ?thesis by simp
    next
      case (Inr r)
      with mc have r: "r = ?item" by (simp add: mutate_config_returns_config)
      have "shape (heap (setitem a i r s1)) = shape (heap s1)"
      proof (cases "i < length (heap s a)")
        case True
        from shape_nth [OF h1 True] r show ?thesis by (simp add: shape_setitem)
      next
        case False
        moreover have "length (heap s1 a) = length (heap s a)"
          using h1 by (metis length_map shape_def)
        ultimately show ?thesis
          by (auto simp: setitem_def list_update_beyond)
      qed
      with "4.IH"(2) [OF refl True mc [symmetric] Inr] h1 True mc Inr
      show ?thesis by simp
    qed
  next
    case False
    obtain u s1 where rr: "random_random s = (u, s1)" by (cases "random_random s")
    have hs1: "heap s1 = heap s" using random_random_frame [OF rr] by simp
    show ?thesis
    proof (cases "u < rate")
      case True
      obtain x s2 where mv: "mutate_value ?item s1 = (x, s2)"
        by (cases "mutate_value ?item s1")
      have hs2: "heap s2 = heap s" using mutate_value_frame [OF mv] hs1 by simp
      have "ref_of x = None" using mutate_value_not_dict [OF mv False] by (rule ref_of_not_dict)
      moreover have "ref_of ?item = None" using False by (rule ref_of_not_dict)
      ultimately have "shape (heap (setitem a i x s2)) = shape (heap s2)"
        using hs2 by (simp add: shape_setitem)
      with "4.IH"(3) [OF refl False rr [symmetric] refl True mv [symmetric] refl] hs2 False rr True mv
      show ?thesis by simp
    next
      case nsel: False
      with "4.IH"(4) [OF refl False rr [symmetric] refl nsel] hs1 False rr
      show ?thesis by simp
    qed
  qed
qed

lemma isinstance_dict_ref: "isinstance v TDict \<longleftrightarrow> (\<exists>b. v = VDict b)"
  by (cases v) (simp_all add: isinstance_def)

lemma isinstance_dict_ref_of: "isinstance v TDict \<longleftrightarrow> ref_of v \<noteq> None"
  by (cases v) (simp_all add: isinstance_def ref_of_def)

lemma nesting_shape:
  assumes "shape h' = shape h"
  shows "nesting_within d h' v = nesting_within d h v"
proof (induction d arbitrary: v)
  case 0
  then show ?case by simp
next
  case (Suc d)
  show ?case
  proof (cases v)
    case (VDict a)
    from assms have eq: "shape h' a = shape h a" by simp
    then have len: "length (h' a) = length (h a)" by (metis length_map shape_def)
    have "list_all (\<lambda>(k, x). \<not> isinstance x TDict \<or> nesting_within d h' x) (h' a)
        = list_all (\<lambda>(k, x). \<not> isinstance x TDict \<or> nesting_within d h x) (h a)"
      unfolding list_all_length len
    proof (intro all_cong1 imp_cong refl)
      fix n assume n: "n < length (h a)"
      from eq have "shape h' a ! n = shape h a ! n" by simp
      with n len have r: "ref_of (snd (h' a ! n)) = ref_of (snd (h a ! n))"
        by (simp add: shape_def split_beta)
      show "(case h' a ! n of (k, x) \<Rightarrow> \<not> isinstance x TDict \<or> nesting_within d h' x)
          = (case h a ! n of (k, x) \<Rightarrow> \<not> isinstance x TDict \<or> nesting_within d h x)"
      proof (cases "ref_of (snd (h a ! n))")
        case None
        with r show ?thesis by (simp add: split_beta isinstance_dict_ref_of)
      next
        case (Some b)
        with r have "snd (h' a ! n) = VDict b" "snd (h a ! n) = VDict b"
          by (auto simp: ref_of_def split: val.splits)
        then show ?thesis using Suc.IH [of "VDict b"] by (simp add: split_beta)
      qed
    qed
    with VDict show ?thesis by simp
  qed simp_all
qed

subsection \<open>Enough recursion depth, and rates from one up\<close>

lemma mutate_succeeds:
  "nesting_within d (heap s) v \<Longrightarrow> fst (mutate_config d v r s) = Inr v"
  "(\<forall>i \<in> set is. i < length (heap s a) \<and>
        (isinstance (snd (heap s a ! i)) TDict \<longrightarrow> nesting_within d (heap s) (snd (heap s a ! i))))
     \<Longrightarrow> fst (mutate_items d a r is s) = None"
proof (induction d v r s and d a r "is" s rule: mutate_config_mutate_items.induct)
  case (1 config mutation_rate s)
  then show ?case by simp
next
  case (2 d config rate s)
  from "2.prems" obtain a where a: "config = VDict a" by (cases config) simp_all
  with "2.prems" have all: "list_all (\<lambda>(k, x). \<not> isinstance x TDict \<or> nesting_within d (heap s) x) (heap s a)"
    by simp
  have "\<forall>i \<in> set [0..<length (heap s a)]. i < length (heap s a) \<and>
        (isinstance (snd (heap s a ! i)) TDict \<longrightarrow> nesting_within d (heap s) (snd (heap s a ! i)))"
    using all by (auto simp: list_all_length split_beta)
  from "2.IH" [OF a this] a show ?case
    by (auto split: prod.splits option.splits)
next
  case (3 d a mutation_rate s)
  then show ?case by simp
next
  case (4 d a rate i "is" s)
  let ?item = "snd (heap s a ! i)"
  from "4.prems" have i: "i < length (heap s a)"
    and iv: "isinstance ?item TDict \<longrightarrow> nesting_within d (heap s) ?item"
    and rest: "\<forall>j \<in> set is. j < length (heap s a) \<and>
        (isinstance (snd (heap s a ! j)) TDict \<longrightarrow> nesting_within d (heap s) (snd (heap s a ! j)))"
    by simp_all
  have keep: "\<forall>j \<in> set is. j < length (heap s' a) \<and>
        (isinstance (snd (heap s' a ! j)) TDict \<longrightarrow> nesting_within d (heap s') (snd (heap s' a ! j)))"
    if sh: "shape (heap s') = shape (heap s)" for s'
  proof
    fix j assume j: "j \<in> set is"
    with rest have jl: "j < length (heap s a)"
      and jv: "isinstance (snd (heap s a ! j)) TDict \<longrightarrow> nesting_within d (heap s) (snd (heap s a ! j))"
      by simp_all
    from shape_nth [OF sh jl] have r: "ref_of (snd (heap s' a ! j)) = ref_of (snd (heap s a ! j))"
      and l: "length (heap s' a) = length (heap s a)" by simp_all
    show "j < length (heap s' a) \<and>
        (isinstance (snd (heap s' a ! j)) TDict \<longrightarrow> nesting_within d (heap s') (snd (heap s' a ! j)))"
    proof (intro conjI impI)
      show "j < length (heap s' a)" using jl l by simp
    next
      assume dct: "isinstance (snd (heap s' a ! j)) TDict"
      then obtain b where b: "snd (heap s' a ! j) = VDict b" by (auto simp: isinstance_dict_ref)
      with r have "snd (heap s a ! j) = VDict b" by (auto simp: ref_of_def split: val.splits)
      with jv b have "nesting_within d (heap s) (snd (heap s' a ! j))" by (simp add: isinstance_def)
      then show "nesting_within d (heap s') (snd (heap s' a ! j))"
        by (simp add: nesting_shape [OF sh])
    qed
  qed
  show ?case
  proof (cases "isinstance ?item TDict")
    case True
    obtain res s1 where mc: "mutate_config d ?item rate s = (res, s1)"
      by (cases "mutate_config d ?item rate s")
    from iv True have "nesting_within d (heap s) ?item" by simp
    from "4.IH"(1) [OF refl True this] mc have res: "res = Inr ?item" by simp
    have sh1: "shape (heap s1) = shape (heap s)" using shape_preserved(1) [of d ?item rate s] mc by simp
    have "ref_of ?item = ref_of (snd (heap s1 a ! i))" using shape_nth(1) [OF sh1 i] by simp
    then have sh2: "shape (heap (setitem a i ?item s1)) = shape (heap s)"
      using sh1 by (simp add: shape_setitem)
    from "4.IH"(2) [OF refl True mc [symmetric] res keep [OF sh2]] True mc res
    show ?thesis by simp
  next
    case False
    obtain u s1 where rr: "random_random s = (u, s1)" by (cases "random_random s")
    have hs1: "heap s1 = heap s" using random_random_frame [OF rr] by simp
    show ?thesis
    proof (cases "u < rate")
      case True
      obtain x s2 where mv: "mutate_value ?item s1 = (x, s2)"
        by (cases "mutate_value ?item s1")
      have hs2: "heap s2 = heap s" using mutate_value_frame [OF mv] hs1 by simp
      have "ref_of x = None" using mutate_value_not_dict [OF mv False] by (rule ref_of_not_dict)
      moreover have "ref_of ?item = None" using False by (rule ref_of_not_dict)
      ultimately have "shape (heap (setitem a i x s2)) = shape (heap s)"
        using hs2 by (simp add: shape_setitem)
      from "4.IH"(3) [OF refl False rr [symmetric] refl True mv [symmetric] refl keep [OF this]]
        False rr True mv
      show ?thesis by simp
    next
      case nsel: False
      have "shape (heap s1) = shape (heap s)" using hs1 by simp
      from "4.IH"(4) [OF refl False rr [symmetric] refl nsel keep [OF this]] False rr nsel
      show ?thesis by simp
    qed
  qed
qed

lemma rate_ge_one:
  "1 \<le> r \<Longrightarrow> mutate_config d v r s = mutate_config d v 1 s"
  "1 \<le> r \<Longrightarrow> mutate_items d a r is s = mutate_items d a 1 is s"
proof (induction d v r s and d a r "is" s rule: mutate_config_mutate_items.induct)
  case (4 d a rate i "is" s)
  let ?item = "snd (heap s a ! i)"
  obtain u s1 where rr: "random_random s = (u, s1)" by (cases "random_random s")
  have u: "u < 1" "u < rate" using random_random_unit [of s] rr "4.prems" by auto
  show ?case
  proof (cases "isinstance ?item TDict")
    case True
    with "4.IH"(1,2) "4.prems" show ?thesis
      by (auto split: prod.splits sum.splits)
  next
    case False
    obtain x s2 where mv: "mutate_value ?item s1 = (x, s2)"
      by (cases "mutate_value ?item s1")
    from "4.IH"(3) [OF refl False rr [symmetric] refl u(2) mv [symmetric] refl "4.prems"]
      False rr u mv
    show ?thesis by simp
  qed
qed (auto split: val.splits)

lemma skeleton_shape:
  "shape h' = shape h \<Longrightarrow> skeleton_of d h' v = skeleton_of d h v"
proof (induction d arbitrary: v)
  case 0
  show ?case by simp
next
  case (Suc d)
  show ?case
  proof (cases v)
    case (VDict a)
    have len: "length (h' a) = length (h a)"
      using Suc.prems by (metis length_map shape_def)
    have "map (\<lambda>(k, x). (k, skeleton_of d h' x)) (h' a)
        = map (\<lambda>(k, x). (k, skeleton_of d h x)) (h a)"
    proof (rule nth_equalityI)
      show "length (map (\<lambda>(k, x). (k, skeleton_of d h' x)) (h' a))
          = length (map (\<lambda>(k, x). (k, skeleton_of d h x)) (h a))"
        using len by simp
    next
      fix i assume "i < length (map (\<lambda>(k, x). (k, skeleton_of d h' x)) (h' a))"
      then have i: "i < length (h' a)" "i < length (h a)" using len by simp_all
      have "shape h' a ! i = shape h a ! i" using Suc.prems by simp
      then have k: "fst (h' a ! i) = fst (h a ! i)"
        and r: "ref_of (snd (h' a ! i)) = ref_of (snd (h a ! i))"
        using i by (simp_all add: shape_def split_beta)
      have "skeleton_of d h' (snd (h' a ! i)) = skeleton_of d h (snd (h a ! i))"
      proof (cases "snd (h a ! i)")
        case (VDict b)
        then have "snd (h' a ! i) = VDict b" using r by (simp add: ref_of_def split: val.splits)
        then show ?thesis using VDict Suc.IH [OF Suc.prems] by simp
      qed (use r in \<open>cases d; auto simp: ref_of_def split: val.splits\<close>)+
      then show "map (\<lambda>(k, x). (k, skeleton_of d h' x)) (h' a) ! i
               = map (\<lambda>(k, x). (k, skeleton_of d h x)) (h a) ! i"
        using i k by (simp add: split_beta)
    qed
    then show ?thesis using VDict by simp
  qed simp_all
qed

section \<open>The tree mutator: statements\<close>

text \<open>
  In the statements below \<open>d\<close> is the number of nested calls the interpreter still
  allows, and \<open>nesting_within d (heap s) T\<close> says that \<open>T\<close> is a dictionary nested no
  deeper than that; then \<open>mutate_config\<close> returns, and returns \<open>T\<close>.
\<close>

text \<open>
  C2. With the mutation rate 0, \<open>mutate_config\<close> returns the tree it was given and every
  dictionary holds what it held before, whatever the random source yields: no draw is
  below 0. The log is unchanged as well.
\<close>

theorem rate_zero_identity:
  assumes "nesting_within d (heap s) T"
  shows "fst (mutate_config d T 0 s) = Inr T
       \<and> heap (snd (mutate_config d T 0 s)) = heap s
       \<and> log (snd (mutate_config d T 0 s)) = log s"
  using mutate_succeeds(1) [OF assms, of 0] rate_zero_heap(1) [of d T s]
  by (cases "mutate_config d T 0 s") simp

theorem rate_zero_identity_witness:
  "fst (mutate_config 2 (VDict 0) 0 state1) = Inr (VDict 0)
   \<and> heap (snd (mutate_config 2 (VDict 0) 0 state1)) = heap state1
   \<and> log (snd (mutate_config 2 (VDict 0) 0 state1)) = log state1"
proof -
  have "nesting_within 2 (heap state1) (VDict 0)"
    by (simp add: numeral_2_eq_2 state1_def state0_def isinstance_def)
  then show ?thesis by (rule rate_zero_identity)
qed

text \<open>
  C3. For every mutation rate, after \<open>mutate_config\<close> every dictionary has the keys it
  had before, in the same order, and under each key a dictionary exactly where there was
  one, and the same one; so the tree of keys below \<open>T\<close> is the same to every depth \<open>n\<close>.
\<close>

theorem shape_preservation:
  assumes "nesting_within d (heap s) T"
  shows "fst (mutate_config d T rate s) = Inr T
       \<and> shape (heap (snd (mutate_config d T rate s))) = shape (heap s)
       \<and> skeleton_of n (heap (snd (mutate_config d T rate s))) T = skeleton_of n (heap s) T"
proof -
  have sh: "shape (heap (snd (mutate_config d T rate s))) = shape (heap s)"
    using shape_preserved(1) [of d T rate s] by (cases "mutate_config d T rate s") simp
  show ?thesis using mutate_succeeds(1) [OF assms, of rate] sh skeleton_shape [OF sh] by simp
qed

theorem shape_preservation_witness:
  "fst (mutate_config 2 (VDict 0) 1 state1) = Inr (VDict 0)
   \<and> shape (heap (snd (mutate_config 2 (VDict 0) 1 state1))) = shape (heap state1)
   \<and> skeleton_of 2 (heap (snd (mutate_config 2 (VDict 0) 1 state1))) (VDict 0)
     = skeleton_of 2 (heap state1) (VDict 0)"
proof -
  have "nesting_within 2 (heap state1) (VDict 0)"
    by (simp add: numeral_2_eq_2 state1_def state0_def isinstance_def)
  then show ?thesis by (rule shape_preservation)
qed

text \<open>
  C9 (the tree of the caller is modified). On \<open>{port: 3}\<close> with the rate 1 and the draw
  2 from \<open>randint(-5, 5)\<close>, the dictionary that the caller passed holds \<open>port: 5\<close>
  after the call.
\<close>

theorem caller_tree_modified:
  "heap (snd (mutate_config (Suc 0) (VDict 0) 1 state2)) 0 = [(''port'', VInt 5)]
   \<and> heap state2 0 = [(''port'', VInt 3)]"
  by (simp add: state2_def state0_def isinstance_def random_random_def next_raw_def
      mutate_value_def random_randint_def setitem_def)

text \<open>
  C9, as the code has it. \<open>mutate_config\<close> updates the dictionaries of the caller in
  place and returns the very object it was given; besides the dictionaries it changes
  only the position of the random source and the log: files, processes and the random
  tape are untouched.
\<close>

theorem mutates_in_place:
  assumes "fst (mutate_config d T rate s) = Inr r"
  shows "r = T
       \<and> fs (snd (mutate_config d T rate s)) = fs s
       \<and> procs (snd (mutate_config d T rate s)) = procs s
       \<and> tape (snd (mutate_config d T rate s)) = tape s"
proof -
  obtain s' where "mutate_config d T rate s = (Inr r, s')"
    using assms by (cases "mutate_config d T rate s") simp
  then have "r = T" by (rule mutate_config_returns_config)
  then show ?thesis using mutate_frame(1) [of d T rate s] by simp
qed

theorem mutates_in_place_witness:
  "fst (mutate_config (Suc 0) (VDict 0) 1 state2) = Inr (VDict 0)
   \<and> fs (snd (mutate_config (Suc 0) (VDict 0) 1 state2)) = fs state2
   \<and> procs (snd (mutate_config (Suc 0) (VDict 0) 1 state2)) = procs state2
   \<and> tape (snd (mutate_config (Suc 0) (VDict 0) 1 state2)) = tape state2"
proof -
  have "nesting_within (Suc 0) (heap state2) (VDict 0)"
    by (simp add: state2_def state0_def isinstance_def)
  then have 1: "fst (mutate_config (Suc 0) (VDict 0) 1 state2) = Inr (VDict 0)"
    by (rule mutate_succeeds(1))
  show ?thesis using mutates_in_place [OF 1] 1 by simp
qed

subsection \<open>Rates from one up, and rates out of range\<close>




text \<open>
  On \<open>{port: 3, db: {debug: None}}\<close> with the rate 2.5 both values that are not
  dictionaries are selected: \<open>port\<close> becomes 5, and the warning shows that \<open>debug\<close> was
  passed to \<open>mutate_value\<close>.
\<close>

lemma every_leaf_example:
  "mutate_config (Suc (Suc 0)) (VDict 0) (5 / 2) state1 =
     (Inr (VDict 0),
      state1\<lparr>heap := (\<lambda>a. [])
                 (0 := [(''port'', VInt 5), (''db'', VDict 1)], 1 := [(''debug'', VNone)]),
             pos := Suc (Suc (Suc 0)),
             log := [(WARNING, Unsupported_type TNoneType)]\<rparr>)"
  by (simp add: state1_def state0_def isinstance_def random_random_def next_raw_def
      mutate_value_def random_randint_def setitem_def logging_def Let_def fun_upd_twist)




text \<open>A run with the rate -1 mutates nothing and returns 0.\<close>

lemma negative_rate_example:
  "fst (main env0 (args0\<lparr>mutation_rate := - 1\<rparr>) state3) = 0
   \<and> heap (snd (main env0 (args0\<lparr>mutation_rate := - 1\<rparr>) state3)) 0 = [(''port'', VInt 3)]
   \<and> log (snd (main env0 (args0\<lparr>mutation_rate := - 1\<rparr>) state3))
     = [(INFO, Saved_to ''app.yaml''), (INFO, Mutated_successfully)]"
  by (simp add: main_def main_try_def env0_def args0_def state3_def state0_def
      load_config_def os_path_exists_def open_read_def endswith_def numeral_3_eq_3
      isinstance_def random_random_def next_raw_def
      setitem_def truthy_def save_config_def open_write_def write_text_def logging_def
      test_stage_def Let_def)



section \<open>The session orchestrator: lemmas\<close>

lemma logging_frame [simp]:
  "procs (logging l e s) = procs s" "fs (logging l e s) = fs s"
  "heap (logging l e s) = heap s" "log (logging l e s) = log s @ [(l, e)]"
  by (simp_all add: logging_def)

lemma load_config_frame:
  "procs (snd (load_config E f s)) = procs s \<and> fs (snd (load_config E f s)) = fs s"
  by (auto simp: load_config_def load_config_except_def split: sum.splits prod.splits)

lemma save_config_procs: "procs (snd (save_config E c out s)) = procs s"
  by (auto simp: save_config_def save_config_except_def open_write_def write_text_def Let_def
      split: sum.splits prod.splits option.splits node.splits)

lemma lint_config_procs:
  "\<exists>t. procs (snd (lint_config E f s)) = procs s @ t
     \<and> (\<forall>p \<in> set t. \<not> is_test_invocation p \<and> (lint_failed p \<longleftrightarrow> \<not> fst (lint_config E f s)))"
  by (auto simp: lint_config_def lint_config_except_def subprocess_run_def Let_def
      lint_failed_def is_test_invocation_def split: sum.splits prod.splits)

lemma run_test_command_procs:
  "\<exists>t. procs (snd (run_test_command E f c s)) = procs s @ t \<and> (\<forall>p \<in> set t. is_test_invocation p)"
  by (auto simp: run_test_command_def subprocess_run_def Let_def is_test_invocation_def
      split: sum.splits prod.splits)

lemma test_stage_procs:
  "\<exists>t. procs (snd (test_stage E A out s)) = procs s @ t \<and> (\<forall>p \<in> set t. is_test_invocation p)"
proof (cases "truthy (test_command A)")
  case True
  obtain rc s1 where r: "run_test_command E out (the (test_command A)) s = (rc, s1)"
    by (cases "run_test_command E out (the (test_command A)) s")
  show ?thesis
    using run_test_command_procs [of E out "the (test_command A)" s] True r
    by (auto simp: test_stage_def)
next
  case False
  then show ?thesis by (simp add: test_stage_def)
qed

lemma lint_failed_not_test: "lint_failed p \<Longrightarrow> \<not> is_test_invocation p"
  by (auto simp: lint_failed_def is_test_invocation_def split: prod.splits invocation.splits)

lemma main_lint_gate:
  assumes lf: "lint_failed p" and mem: "p \<in> set (new_procs s (snd (main E A s)))"
  shows "lint A \<and> fst (main E A s) = 1
       \<and> (\<forall>q \<in> set (new_procs s (snd (main E A s))). \<not> is_test_invocation q)"
proof -
  obtain r1 s1 where L: "load_config E (config_file A) s = (r1, s1)"
    by (cases "load_config E (config_file A) s")
  have p1: "procs s1 = procs s" using load_config_frame [of E "config_file A" s] L by simp
  show ?thesis
  proof (cases r1)
    case (Inl e)
    then have "procs (snd (main E A s)) = procs s"
      using L p1 by (simp add: main_def main_try_def)
    then show ?thesis using mem by (simp add: new_procs_def)
  next
    case (Inr config)
    obtain r2 s2 where M: "mutate_config (recursion_limit E) config (mutation_rate A) s1 = (r2, s2)"
      by (cases "mutate_config (recursion_limit E) config (mutation_rate A) s1")
    have p2: "procs s2 = procs s"
      using mutate_frame(1) [of "recursion_limit E" config "mutation_rate A" s1] M p1 by simp
    show ?thesis
    proof (cases r2)
      case (Inl e)
      then have "procs (snd (main E A s)) = procs s"
        using L Inr M p2 by (simp add: main_def main_try_def)
      then show ?thesis using mem by (simp add: new_procs_def)
    next
      case m: (Inr mutated_config)
      define out where "out = (if truthy (output_file A) then the (output_file A) else config_file A)"
      obtain r3 s3 where S: "save_config E mutated_config out s2 = (r3, s3)"
        by (cases "save_config E mutated_config out s2")
      have p3: "procs s3 = procs s"
        using save_config_procs [of E mutated_config out s2] S p2 by simp
      show ?thesis
      proof (cases r3)
        case (Inl e)
        then have "procs (snd (main E A s)) = procs s"
          using L Inr M m S p3 by (simp add: main_def main_try_def out_def [symmetric])
        then show ?thesis using mem by (simp add: new_procs_def)
      next
        case u: (Inr u)
        have T: "\<And>s4. \<exists>code s5 t'. test_stage E A out s4 = (code, s5)
            \<and> procs s5 = procs s4 @ t' \<and> (\<forall>p \<in> set t'. is_test_invocation p)"
          using test_stage_procs [of E A out] by (metis prod.collapse)
        show ?thesis
        proof (cases "lint A")
          case False
          obtain code s5 t' where ts: "test_stage E A out s3 = (code, s5)"
            "procs s5 = procs s3 @ t'" "\<forall>p \<in> set t'. is_test_invocation p"
            using T [of s3] by blast
          have "main E A s = (code, s5)"
            using L Inr M m S u False ts(1) by (simp add: main_def main_try_def out_def [symmetric])
          then have "new_procs s (snd (main E A s)) = t'"
            using ts(2) p3 by (simp add: new_procs_def)
          then show ?thesis using mem ts(3) lf lint_failed_not_test [OF lf] by auto
        next
          case True
          obtain ok s4 where K: "lint_config E out s3 = (ok, s4)"
            by (cases "lint_config E out s3")
          obtain t where t: "procs s4 = procs s3 @ t"
            "\<forall>p \<in> set t. \<not> is_test_invocation p \<and> (lint_failed p \<longleftrightarrow> \<not> ok)"
            using lint_config_procs [of E out s3] K by auto
          show ?thesis
          proof (cases ok)
            case False
            have "main E A s = (1, logging ERROR Linting_failed_aborting s4)"
              using L Inr M m S u True K False
              by (simp add: main_def main_try_def out_def [symmetric])
            moreover from this have "new_procs s (snd (main E A s)) = t"
              using t(1) p3 by (simp add: new_procs_def)
            ultimately show ?thesis using t(2) True by simp
          next
            case ok: True
            obtain code s5 t' where ts: "test_stage E A out s4 = (code, s5)"
              "procs s5 = procs s4 @ t'" "\<forall>p \<in> set t'. is_test_invocation p"
              using T [of s4] by blast
            have "main E A s = (code, s5)"
              using L Inr M m S u True K ok ts(1)
              by (simp add: main_def main_try_def out_def [symmetric])
            then have "new_procs s (snd (main E A s)) = t @ t'"
              using ts(2) t(1) p3 by (simp add: new_procs_def)
            then show ?thesis using mem ts(3) t(2) ok lf lint_failed_not_test [OF lf] by auto
          qed
        qed
      qed
    qed
  qed
qed

lemma main_example:
  "main env0 args1 state3 =
     (1, state3\<lparr>heap := (\<lambda>a. [])(0 := [(''port'', VInt 5)]), pos := Suc (Suc 0),
          fs := (\<lambda>p. None)(''app.yaml'' \<mapsto> File ''port: 5''),
          procs := [(Exec [''yamllint'', ''app.yaml''], Inl FileNotFoundError)],
          log := [(INFO, Saved_to ''app.yaml''),
                  (ERROR, Linting_tool_not_found FileNotFoundError),
                  (ERROR, Linting_failed_aborting)]\<rparr>)"
  by (simp add: main_def main_try_def env0_def args1_def args0_def state3_def state0_def
      load_config_def os_path_exists_def open_read_def endswith_def numeral_3_eq_3
      isinstance_def random_random_def next_raw_def mutate_value_def random_randint_def
      setitem_def truthy_def save_config_def open_write_def write_text_def logging_def
      lint_config_def subprocess_run_def lint_config_except_def Let_def)

section \<open>The session orchestrator: statements\<close>

text \<open>
  C5. In a run with \<open>--lint\<close> in which the linter could not be started or returned a
  code other than 0, \<open>main\<close> returns 1 and no test command is started in that run.
\<close>

theorem lint_gate_short_circuit:
  assumes "lint A" and "list_ex lint_failed (new_procs s (snd (main E A s)))"
  shows "fst (main E A s) = 1
       \<and> \<not> list_ex is_test_invocation (new_procs s (snd (main E A s)))"
proof -
  obtain p where "lint_failed p" "p \<in> set (new_procs s (snd (main E A s)))"
    using assms(2) by (auto simp: list_ex_iff)
  then show ?thesis using main_lint_gate [of p s E A] by (simp add: list_ex_iff)
qed

theorem lint_gate_short_circuit_witness:
  "fst (main env0 args1 state3) = 1
   \<and> \<not> list_ex is_test_invocation (new_procs state3 (snd (main env0 args1 state3)))"
proof -
  have 1: "lint args1" by (simp add: args1_def args0_def)
  have 2: "list_ex lint_failed (new_procs state3 (snd (main env0 args1 state3)))"
    unfolding main_example by (simp add: new_procs_def lint_failed_def state3_def state0_def)
  show ?thesis using 1 2 by (rule lint_gate_short_circuit)
qed

text \<open>
  C6. When the configuration file does not exist, \<open>main\<close> logs the error and returns 1;
  the file system is what it was, so no output file is written or emptied, and no
  process is started.
\<close>

theorem absent_input_exits_1:
  assumes "fs s (config_file A) = None"
  shows "main E A s = (1, logging ERROR (File_not_found FileNotFoundError) s)
       \<and> fst (main E A s) = 1
       \<and> fs (snd (main E A s)) = fs s
       \<and> procs (snd (main E A s)) = procs s"
  using assms by (simp add: main_def main_try_def load_config_def os_path_exists_def)

theorem absent_input_exits_1_witness:
  "main env0 args0 state0 = (1, logging ERROR (File_not_found FileNotFoundError) state0)
   \<and> fst (main env0 args0 state0) = 1
   \<and> fs (snd (main env0 args0 state0)) = fs state0
   \<and> procs (snd (main env0 args0 state0)) = procs state0"
proof -
  have "fs state0 (config_file args0) = None" by (simp add: state0_def)
  then show ?thesis by (rule absent_input_exits_1)
qed

section \<open>The test command: lemmas\<close>

lemma emit_simps [simp]:
  "emit t (Inl e) = Inl e" "emit t (Inr u) = Inr (t @ u)" "emit [] r = r"
  by (simp_all add: emit_def split: sum.splits)

lemma emit_emit: "emit t (emit u r) = emit (t @ u) r"
  by (cases r) simp_all

lemma format_from_plain:
  "CHR ''{'' \<notin> set t \<Longrightarrow> CHR ''}'' \<notin> set t \<Longrightarrow> format_from E arg n t = Inr t"
  by (induction E arg n t rule: format_from.induct) auto

lemma format_from_prefix:
  assumes "CHR ''{'' \<notin> set pre" "CHR ''}'' \<notin> set pre" "rest \<noteq> []"
  shows "format_from E arg n (pre @ rest) = emit pre (format_from E arg n rest)"
  using assms
proof (induction pre)
  case Nil
  show ?case by simp
next
  case (Cons c pre)
  obtain c' cs where r: "pre @ rest = c' # cs"
    using Cons.prems(3) by (cases "pre @ rest") auto
  have c: "c \<noteq> CHR ''{''" "c \<noteq> CHR ''}''" using Cons.prems by auto
  have "format_from E arg n ((c # pre) @ rest) = emit [c] (format_from E arg n (pre @ rest))"
    using c r by simp
  also have "\<dots> = emit [c] (emit pre (format_from E arg n rest))"
    using Cons by simp
  finally show ?case by (simp add: emit_emit)
qed

lemma str_format_one_placeholder:
  assumes "CHR ''{'' \<notin> set (pre @ post)" "CHR ''}'' \<notin> set (pre @ post)"
  shows "str_format E (pre @ ''{}'' @ post) arg = Inr (pre @ arg @ post)"
proof -
  have "format_from E arg 0 (''{}'' @ post) = Inr (arg @ post)"
    using assms by (simp add: format_from_plain)
  then show ?thesis
    using assms format_from_prefix [of pre "''{}'' @ post" E arg 0]
    by (simp add: str_format_def)
qed

section \<open>The test command: statements\<close>

text \<open>
  C7 (a template with one placeholder that is not substituted). The template
  \<open>grep -c } {}\<close> holds the placeholder once; \<open>str.format\<close> raises \<open>ValueError\<close> at the
  closing brace before it, so nothing is substituted and no command is run:
  \<open>run_test_command\<close> logs the error and returns -1.
\<close>

theorem stray_brace_not_substituted:
  "str_format env0 ''grep -c } {}'' ''app.yaml'' = Inl ValueError
   \<and> run_test_command env0 ''app.yaml'' ''grep -c } {}'' state3
     = (- 1, logging ERROR (Error_executing_test_command ValueError) state3)"
  by (simp add: run_test_command_def str_format_def)

text \<open>
  C7, as the code has it. For a template whose only braces are those of its one
  placeholder, the command is the template with the path of the file in the place of the
  placeholder, and \<open>run_test_command\<close> starts exactly that command, once.
\<close>

theorem placeholder_substituted_once:
  assumes "CHR ''{'' \<notin> set (pre @ post)" and "CHR ''}'' \<notin> set (pre @ post)"
  shows "str_format E (pre @ ''{}'' @ post) path = Inr (pre @ path @ post)
       \<and> new_procs s (snd (run_test_command E path (pre @ ''{}'' @ post) s))
         = [(Shell (pre @ path @ post), fst (process E (Shell (pre @ path @ post)) (fs s)))]"
  using str_format_one_placeholder [OF assms, of E path]
  by (simp add: run_test_command_def subprocess_run_def new_procs_def Let_def
      split: prod.splits sum.splits)

theorem placeholder_substituted_once_witness:
  "str_format env0 (''test -f '' @ ''{}'' @ '' && echo ok'') ''app.yaml''
     = Inr (''test -f '' @ ''app.yaml'' @ '' && echo ok'')
   \<and> new_procs state3
        (snd (run_test_command env0 ''app.yaml'' (''test -f '' @ ''{}'' @ '' && echo ok'') state3))
     = [(Shell (''test -f '' @ ''app.yaml'' @ '' && echo ok''),
         fst (process env0 (Shell (''test -f '' @ ''app.yaml'' @ '' && echo ok'')) (fs state3)))]"
proof -
  have 1: "CHR ''{'' \<notin> set (''test -f '' @ '' && echo ok'')" by simp
  have 2: "CHR ''}'' \<notin> set (''test -f '' @ '' && echo ok'')" by simp
  show ?thesis using 1 2 by (rule placeholder_substituted_once)
qed

text \<open>
  C8. Once the command is formatted: when starting it raises an exception,
  \<open>run_test_command\<close> returns -1 and logs the error of the invocation, and no return
  code; when the process runs, \<open>run_test_command\<close> returns its return code and logs it,
  and logs no error of the invocation.
\<close>

theorem invocation_error_distinguished:
  assumes "str_format E template f = Inr command"
  shows "(case fst (process E (Shell command) (fs s)) of
            Inl e \<Rightarrow>
              fst (run_test_command E f template s) = - 1
              \<and> new_log s (snd (run_test_command E f template s))
                = [(INFO, Executing_test_command command),
                   (ERROR, Error_executing_test_command e)]
              \<and> invocation_error_logged (new_log s (snd (run_test_command E f template s)))
              \<and> \<not> return_code_logged (new_log s (snd (run_test_command E f template s)))
          | Inr result \<Rightarrow>
              fst (run_test_command E f template s) = returncode result
              \<and> return_code_logged (new_log s (snd (run_test_command E f template s)))
              \<and> \<not> invocation_error_logged (new_log s (snd (run_test_command E f template s))))"
  using assms
  by (auto simp: run_test_command_def subprocess_run_def new_log_def Let_def
      invocation_error_logged_def return_code_logged_def logging_def
      split: prod.splits sum.splits)

theorem invocation_error_distinguished_witness:
  "(case fst (process env1 (Shell ''test -f app.yaml'') (fs state3)) of
      Inl e \<Rightarrow>
        fst (run_test_command env1 ''app.yaml'' ''test -f {}'' state3) = - 1
        \<and> new_log state3 (snd (run_test_command env1 ''app.yaml'' ''test -f {}'' state3))
          = [(INFO, Executing_test_command ''test -f app.yaml''),
             (ERROR, Error_executing_test_command e)]
        \<and> invocation_error_logged
            (new_log state3 (snd (run_test_command env1 ''app.yaml'' ''test -f {}'' state3)))
        \<and> \<not> return_code_logged
            (new_log state3 (snd (run_test_command env1 ''app.yaml'' ''test -f {}'' state3)))
    | Inr result \<Rightarrow>
        fst (run_test_command env1 ''app.yaml'' ''test -f {}'' state3) = returncode result
        \<and> return_code_logged
            (new_log state3 (snd (run_test_command env1 ''app.yaml'' ''test -f {}'' state3)))
        \<and> \<not> invocation_error_logged
            (new_log state3 (snd (run_test_command env1 ''app.yaml'' ''test -f {}'' state3))))"
proof -
  have "str_format env1 ''test -f {}'' ''app.yaml'' = Inr ''test -f app.yaml''"
    by (simp add: str_format_def)
  then show ?thesis by (rule invocation_error_distinguished)
qed

end
